theory Spec2Isabelle
  imports Main "HOL-Library.Word" "HOL-Library.AList" "HOL-Library.Monad_Syntax"
begin

section \<open>Data model of the in-memory accounting core\<close>

text \<open>
  The Go source keeps three package-level tables (maps from a string key to a pointer to a
  record) and three managers working on them. Go's \<open>int64\<close> is a 64-bit word whose
  addition and subtraction wrap around; \<open>time.Time\<close> is an instant, compared with
  \<open>Before\<close> and \<open>After\<close>, modelled as an integer; \<open>TransactionType\<close> is declared as
  \<open>type TransactionType int\<close>, an integer that the code only ever compares for equality.
\<close>

type_synonym int64 = "64 word"
type_synonym Time = int
type_synonym TransactionType = int

definition DEBIT :: TransactionType where
  "DEBIT = 0"

definition CREDIT :: TransactionType where
  "CREDIT = 1"

text \<open>
  The interfaces \<open>Transaction\<close>, \<open>Account\<close> and \<open>Journal\<close> are read through their getters
  only. A value of an interface is modelled by the values its getters return; the prefix
  \<open>T_\<close>, \<open>A_\<close> or \<open>J_\<close> tells the three interfaces apart where Go uses the same method
  name. \<open>GetReversedJournal\<close> may return nil, hence the option.
\<close>

record Transaction =
  T_GetTransactionID :: string
  T_GetTransactionTime :: Time
  T_GetAccountNumber :: string
  T_GetJournalID :: string
  T_GetDescription :: string
  T_GetTransactionType :: TransactionType
  T_GetAmount :: int64
  T_GetAccountBalance :: int64
  T_GetCreateTime :: Time
  T_GetCreateBy :: string

record Account =
  A_GetCurrency :: string
  A_GetAccountNumber :: string
  A_GetName :: string
  A_GetDescription :: string
  A_GetBaseTransactionType :: TransactionType
  A_GetBalance :: int64
  A_GetCOA :: string
  A_GetCreateTime :: Time
  A_GetCreateBy :: string
  A_GetUpdateTime :: Time
  A_GetUpdateBy :: string

datatype Journal = BaseJournal
  (J_GetJournalID: string)
  (J_GetJournalingTime: Time)
  (J_GetDescription: string)
  (J_IsReversal: bool)
  (J_GetReversedJournal: "Journal option")
  (J_GetAmount: int64)
  (J_GetTransactions: "Transaction list")
  (J_GetCreateTime: Time)
  (J_GetCreateBy: string)

text \<open>
  The table records. Field names carry the prefix \<open>jr_\<close>, \<open>ar_\<close> or \<open>tr_\<close> of their
  record, since the three Go structs share field names.
\<close>

record InMemoryJournalRecords =
  jr_journalId :: string
  jr_journalingTime :: Time
  jr_description :: string
  jr_reversal :: bool
  jr_reversedJournalId :: string
  jr_amount :: int64
  jr_createTime :: Time
  jr_createBy :: string

record InMemoryAccountRecord =
  ar_currency :: string
  ar_id :: string
  ar_name :: string
  ar_description :: string
  ar_baseTransactionType :: TransactionType
  ar_balance :: int64
  ar_coa :: string
  ar_createTime :: Time
  ar_createBy :: string
  ar_updateTime :: Time
  ar_updateBy :: string

record InMemoryTransactionRecords =
  tr_transactionId :: string
  tr_transactionTime :: Time
  tr_accountNumber :: string
  tr_journalId :: string
  tr_description :: string
  tr_transactionType :: TransactionType
  tr_amount :: int64
  tr_accountBalance :: int64
  tr_createTime :: Time
  tr_createBy :: string

text \<open>
  A table is an association list: \<open>map_of\<close> is Go's lookup \<open>m[k]\<close>, \<open>AList.update\<close> is
  the assignment \<open>m[k] = v\<close> (it replaces the entry of an existing key in place and appends a
  new key), and the order of the list is the order in which a \<open>range\<close> loop visits the
  map, which Go leaves unspecified. Every pointer to a record is held by its table entry
  alone, so the records are modelled by value.
\<close>

record InMemoryStore =
  InMemoryJournalTable :: "(string \<times> InMemoryJournalRecords) list"
  InMemoryAccountTable :: "(string \<times> InMemoryAccountRecord) list"
  InMemoryTransactionTable :: "(string \<times> InMemoryTransactionRecords) list"

definition init :: InMemoryStore where
  "init = \<lparr>InMemoryJournalTable = [], InMemoryAccountTable = [], InMemoryTransactionTable = []\<rparr>"

text \<open>
  The error values returned by the managers. The last two constructors are not error
  returns but Go run-time panics (a nil pointer dereference on a missing table entry, a
  slice expression out of range); they are branches of the model wherever the source can
  reach them syntactically.
\<close>

datatype error =
    ErrJournalNil
  | ErrJournalMissingId
  | ErrJournalNoTransaction
  | ErrJournalMissingAuthor
  | ErrJournalAlreadyPersisted
  | ErrJournalTransactionMissingID
  | ErrJournalTransactionAlreadyPersisted
  | ErrJournalNotBalance
  | ErrJournalTransactionAccountDuplicate
  | ErrJournalTransactionAccountNotPersist
  | ErrJournalTransactionMixCurrency
  | ErrJournalCanNotDoubleReverse
  | ErrJournalIdNotFound
  | ErrJournalLoadReversalInconsistent
  | ErrAccountMissingID
  | ErrAccountMissingName
  | ErrAccountMissingDescription
  | ErrAccountMissingCreator
  | ErrAccountAlreadyPersisted
  | ErrAccountIsNotPersisted
  | ErrAccountIdNotFound
  | ErrTransactionNotFound
  | PanicNilDereference
  | PanicSliceBounds

section \<open>The journal manager\<close>

subsection \<open>Sums of a journal\<close>

text \<open>
  \<open>GetTotalDebit\<close> and \<open>GetTotalCredit\<close>: a loop adding, in \<open>int64\<close>, the amount of every
  transaction of the given type to a total that starts at 0.
\<close>

fun totalOfType :: "TransactionType \<Rightarrow> Transaction list \<Rightarrow> int64 \<Rightarrow> int64" where
  "totalOfType ty [] tot = tot"
| "totalOfType ty (t # ts) tot =
     totalOfType ty ts (if T_GetTransactionType t = ty then tot + T_GetAmount t else tot)"

definition GetTotalDebit :: "Journal \<Rightarrow> int64" where
  "GetTotalDebit journal = totalOfType DEBIT (J_GetTransactions journal) 0"

definition GetTotalCredit :: "Journal \<Rightarrow> int64" where
  "GetTotalCredit journal = totalOfType CREDIT (J_GetTransactions journal) 0"

subsection \<open>IsJournalIdReversed\<close>

definition IsJournalIdReversed :: "InMemoryStore \<Rightarrow> string \<Rightarrow> bool \<times> error option" where
  "IsJournalIdReversed s journalId =
     (case map_of (InMemoryJournalTable s) journalId of
        Some _ \<Rightarrow>
          (list_ex (\<lambda>(k, j). jr_reversedJournalId j = journalId) (InMemoryJournalTable s), None)
      | None \<Rightarrow> (False, Some ErrJournalIdNotFound))"

subsection \<open>PersistJournal: the checks\<close>

text \<open>
  Check 5 of \<open>PersistJournal\<close>: one loop with two accumulators and two independent
  \<open>if\<close> statements. The result is the pair \<open>(creditSum, debitSum)\<close>.
\<close>

fun balanceSums :: "Transaction list \<Rightarrow> int64 \<Rightarrow> int64 \<Rightarrow> int64 \<times> int64" where
  "balanceSums [] creditSum debitSum = (creditSum, debitSum)"
| "balanceSums (trx # rest) creditSum debitSum =
     (let debitSum' = (if T_GetTransactionType trx = DEBIT then debitSum + T_GetAmount trx
                       else debitSum);
          creditSum' = (if T_GetTransactionType trx = CREDIT then creditSum + T_GetAmount trx
                        else creditSum)
      in balanceSums rest creditSum' debitSum')"

text \<open>
  Check 6: the map \<open>accountDupCheck\<close> only ever holds the value true, so it is the set of
  its keys. The result is True when some account number is met a second time.
\<close>

fun accountDupCheck :: "Transaction list \<Rightarrow> string set \<Rightarrow> bool" where
  "accountDupCheck [] seen = False"
| "accountDupCheck (trx # rest) seen =
     (if T_GetAccountNumber trx \<in> seen then True
      else accountDupCheck rest (insert (T_GetAccountNumber trx) seen))"

text \<open>
  Check 8: the loop reads the currency of each transaction's account through the table
  entry (a nil pointer when the entry is missing), keeps the currency of index 0 and
  compares the others with it.
\<close>

fun currencyCheck ::
  "(string \<times> InMemoryAccountRecord) list \<Rightarrow> Transaction list \<Rightarrow> nat \<Rightarrow> string \<Rightarrow> error option"
where
  "currencyCheck tbl [] idx currency = None"
| "currencyCheck tbl (trx # rest) idx currency =
     (case map_of tbl (T_GetAccountNumber trx) of
        None \<Rightarrow> Some PanicNilDereference
      | Some a \<Rightarrow>
          (let cur = ar_currency a
           in if idx = 0 then currencyCheck tbl rest (idx + 1) cur
              else if cur \<noteq> currency then Some ErrJournalTransactionMixCurrency
              else currencyCheck tbl rest (idx + 1) currency))"

text \<open>
  Check 9, as written in the source: the argument handed to \<open>IsJournalIdReversed\<close> is
  \<open>journalToPersist.GetJournalID()\<close>, the ID of the journal being persisted.
\<close>

definition reversalCheck :: "InMemoryStore \<Rightarrow> Journal \<Rightarrow> error option" where
  "reversalCheck s journalToPersist =
     (if J_GetReversedJournal journalToPersist \<noteq> None then
        (case IsJournalIdReversed s (J_GetJournalID journalToPersist) of
           (reversed, Some err) \<Rightarrow> Some err
         | (reversed, None) \<Rightarrow> if reversed then Some ErrJournalCanNotDoubleReverse else None)
      else None)"

text \<open>
  The nine checks in the order of the source. \<open>Inl\<close> is the error of the first check that
  fails; \<open>Inr\<close> carries \<open>creditSum\<close>, which the write phase stores as the journal's amount.
\<close>

definition validateJournal :: "InMemoryStore \<Rightarrow> Journal \<Rightarrow> error + int64" where
  "validateJournal s journalToPersist =
     (if length (J_GetJournalID journalToPersist) = 0 then Inl ErrJournalMissingId
      else if length (J_GetTransactions journalToPersist) = 0 then Inl ErrJournalNoTransaction
      else if length (J_GetCreateBy journalToPersist) = 0 then Inl ErrJournalMissingAuthor
      else if map_of (InMemoryJournalTable s) (J_GetJournalID journalToPersist) \<noteq> None
        then Inl ErrJournalAlreadyPersisted
      else if list_ex (\<lambda>trx. length (T_GetTransactionID trx) = 0)
                (J_GetTransactions journalToPersist)
        then Inl ErrJournalTransactionMissingID
      else if list_ex (\<lambda>trx. map_of (InMemoryTransactionTable s) (T_GetTransactionID trx) \<noteq> None)
                (J_GetTransactions journalToPersist)
        then Inl ErrJournalTransactionAlreadyPersisted
      else
        (case balanceSums (J_GetTransactions journalToPersist) 0 0 of
           (creditSum, debitSum) \<Rightarrow>
             if creditSum \<noteq> debitSum then Inl ErrJournalNotBalance
             else if accountDupCheck (J_GetTransactions journalToPersist) {}
               then Inl ErrJournalTransactionAccountDuplicate
             else if list_ex (\<lambda>trx. map_of (InMemoryAccountTable s) (T_GetAccountNumber trx) = None)
                       (J_GetTransactions journalToPersist)
               then Inl ErrJournalTransactionAccountNotPersist
             else
               (case currencyCheck (InMemoryAccountTable s)
                       (J_GetTransactions journalToPersist) 0 [] of
                  Some err \<Rightarrow> Inl err
                | None \<Rightarrow>
                    (case reversalCheck s journalToPersist of
                       Some err \<Rightarrow> Inl err
                     | None \<Rightarrow> Inr creditSum))))"

subsection \<open>PersistJournal: the write phase\<close>

text \<open>
  \<open>time.Now()\<close> is read several times during one call. The clock is an argument
  \<open>now\<close>: \<open>now n\<close> is what the \<open>n\<close>-th reading of the call returns (counted from 0).
  The journal record reads it twice, every transaction three times (transaction time,
  creation time, update time of the account).
\<close>

definition newBalanceOf :: "TransactionType \<Rightarrow> TransactionType \<Rightarrow> int64 \<Rightarrow> int64 \<Rightarrow> int64" where
  "newBalanceOf transactionType accountTrxType balance amount =
     (if transactionType = accountTrxType then balance + amount else balance - amount)"

text \<open>
  The body of the loop over the transactions, for a transaction whose account entry is
  \<open>account\<close>: build the record, compute the new balance, insert the record, update the
  account entry.
\<close>

definition postTransaction ::
  "(nat \<Rightarrow> Time) \<Rightarrow> nat \<Rightarrow> string \<Rightarrow> Transaction \<Rightarrow> InMemoryAccountRecord \<Rightarrow> InMemoryStore
     \<Rightarrow> InMemoryStore"
where
  "postTransaction now n journalId trx account s =
     (let transactionToInsert =
            \<lparr>tr_transactionId = T_GetTransactionID trx,
             tr_transactionTime = now n,
             tr_accountNumber = T_GetAccountNumber trx,
             tr_journalId = journalId,
             tr_description = T_GetDescription trx,
             tr_transactionType = T_GetTransactionType trx,
             tr_amount = T_GetAmount trx,
             tr_accountBalance = 0,
             tr_createTime = now (n + 1),
             tr_createBy = T_GetCreateBy trx\<rparr>;
          newBalance =
            newBalanceOf (tr_transactionType transactionToInsert)
              (ar_baseTransactionType account) (ar_balance account)
              (tr_amount transactionToInsert);
          transactionToInsert' = transactionToInsert\<lparr>tr_accountBalance := newBalance\<rparr>;
          s1 = s\<lparr>InMemoryTransactionTable :=
                  AList.update (tr_transactionId transactionToInsert')
                    transactionToInsert' (InMemoryTransactionTable s)\<rparr>
      in s1\<lparr>InMemoryAccountTable :=
              AList.update (T_GetAccountNumber trx)
                (account\<lparr>ar_balance := newBalance,
                         ar_updateTime := now (n + 2),
                         ar_updateBy := T_GetCreateBy trx\<rparr>)
                (InMemoryAccountTable s1)\<rparr>)"

text \<open>
  The loop: the account entry is read through the table (a nil pointer when it is
  missing); every round reads the clock three times.
\<close>

fun persistTransactions ::
  "(nat \<Rightarrow> Time) \<Rightarrow> nat \<Rightarrow> string \<Rightarrow> Transaction list \<Rightarrow> InMemoryStore
     \<Rightarrow> error option \<times> InMemoryStore"
where
  "persistTransactions now n journalId [] s = (None, s)"
| "persistTransactions now n journalId (trx # rest) s =
     (case map_of (InMemoryAccountTable s) (T_GetAccountNumber trx) of
        None \<Rightarrow> (Some PanicNilDereference, s)
      | Some account \<Rightarrow>
          persistTransactions now (n + 3) journalId rest
            (postTransaction now n journalId trx account s))"

definition journalRecordOf :: "(nat \<Rightarrow> Time) \<Rightarrow> Journal \<Rightarrow> int64 \<Rightarrow> InMemoryJournalRecords" where
  "journalRecordOf now journalToPersist creditSum =
     (let journalToInsert =
            \<lparr>jr_journalId = J_GetJournalID journalToPersist,
             jr_journalingTime = now 0,
             jr_description = J_GetDescription journalToPersist,
             jr_reversal = False,
             jr_reversedJournalId = [],
             jr_amount = creditSum,
             jr_createTime = now 1,
             jr_createBy = J_GetCreateBy journalToPersist\<rparr>
      in case J_GetReversedJournal journalToPersist of
           None \<Rightarrow> journalToInsert
         | Some reversedJournal \<Rightarrow>
             journalToInsert\<lparr>jr_reversedJournalId := J_GetJournalID reversedJournal,
                             jr_reversal := True\<rparr>)"

definition PersistJournal ::
  "(nat \<Rightarrow> Time) \<Rightarrow> Journal option \<Rightarrow> InMemoryStore \<Rightarrow> error option \<times> InMemoryStore"
where
  "PersistJournal now journalToPersist s =
     (case journalToPersist of
        None \<Rightarrow> (Some ErrJournalNil, s)
      | Some journal \<Rightarrow>
          (case validateJournal s journal of
             Inl err \<Rightarrow> (Some err, s)
           | Inr creditSum \<Rightarrow>
               (let journalToInsert = journalRecordOf now journal creditSum;
                    s1 = s\<lparr>InMemoryJournalTable :=
                            AList.update (jr_journalId journalToInsert) journalToInsert
                              (InMemoryJournalTable s)\<rparr>
                in persistTransactions now 2 (jr_journalId journalToInsert)
                     (J_GetTransactions journal) s1)))"

definition CommitJournal :: "Journal option \<Rightarrow> InMemoryStore \<Rightarrow> error option \<times> InMemoryStore" where
  "CommitJournal journalToCommit s = (None, s)"

definition CancelJournal :: "Journal option \<Rightarrow> InMemoryStore \<Rightarrow> error option \<times> InMemoryStore" where
  "CancelJournal journalToCancel s = (None, s)"

definition IsJournalIdExist :: "InMemoryStore \<Rightarrow> string \<Rightarrow> bool \<times> error option" where
  "IsJournalIdExist s ident = (map_of (InMemoryJournalTable s) ident \<noteq> None, None)"

subsection \<open>GetJournalById\<close>

definition toBaseTransaction :: "InMemoryTransactionRecords \<Rightarrow> Transaction" where
  "toBaseTransaction trx =
     \<lparr>T_GetTransactionID = tr_transactionId trx,
      T_GetTransactionTime = tr_transactionTime trx,
      T_GetAccountNumber = tr_accountNumber trx,
      T_GetJournalID = tr_journalId trx,
      T_GetDescription = tr_description trx,
      T_GetTransactionType = tr_transactionType trx,
      T_GetAmount = tr_amount trx,
      T_GetAccountBalance = tr_accountBalance trx,
      T_GetCreateTime = tr_createTime trx,
      T_GetCreateBy = tr_createBy trx\<rparr>"

definition transactionsOfJournal :: "InMemoryStore \<Rightarrow> string \<Rightarrow> Transaction list" where
  "transactionsOfJournal s journalId =
     map (\<lambda>(k, trx). toBaseTransaction trx)
       (filter (\<lambda>(k, trx). tr_journalId trx = journalId) (InMemoryTransactionTable s))"

definition journalOfRecord ::
  "InMemoryJournalRecords \<Rightarrow> Journal option \<Rightarrow> Transaction list \<Rightarrow> Journal" where
  "journalOfRecord journalRecord reversed transactions =
     BaseJournal (jr_journalId journalRecord) (jr_journalingTime journalRecord)
       (jr_description journalRecord) (jr_reversal journalRecord) reversed
       (jr_amount journalRecord) transactions (jr_createTime journalRecord)
       (jr_createBy journalRecord)"

text \<open>
  \<open>GetJournalById\<close> calls itself on the reversed journal's ID. Nothing in the function
  bounds that chain (a table in which a record names itself sends the Go code into
  unbounded recursion), so the model is a partial function: \<open>None\<close> is "does not return".
\<close>

partial_function (option) GetJournalById ::
  "InMemoryStore \<Rightarrow> string \<Rightarrow> (error + Journal) option"
where
  "GetJournalById s journalId =
     (case map_of (InMemoryJournalTable s) journalId of
        None \<Rightarrow> Some (Inl ErrJournalIdNotFound)
      | Some journalRecord \<Rightarrow>
          (if jr_reversal journalRecord then
             Option.bind (GetJournalById s (jr_reversedJournalId journalRecord))
               (\<lambda>res. case res of
                   Inl err \<Rightarrow> Some (Inl ErrJournalLoadReversalInconsistent)
                 | Inr reversed \<Rightarrow>
                     Some (Inr (journalOfRecord journalRecord (Some reversed)
                                 (transactionsOfJournal s (jr_journalId journalRecord)))))
           else Some (Inr (journalOfRecord journalRecord None
                             (transactionsOfJournal s (jr_journalId journalRecord))))))"

section \<open>Pagination\<close>

text \<open>
  \<open>PageRequest\<close>, \<open>PageResult\<close> and \<open>PageResultFor\<close> belong to a source file that is
  not part of the material at hand. The managers read the fields \<open>PageSize\<close>,
  \<open>Offset\<close>, \<open>TotalEntries\<close>, \<open>Page\<close> and \<open>TotalPages\<close> of the result.
\<close>

record PageRequest =
  PageNo :: int
  ItemSize :: int

record PageResult =
  TotalEntries :: int
  TotalPages :: int
  Page :: int
  PageSize :: int
  Offset :: int

text \<open>
  Modelled from the spec: \<open>PageResultFor\<close>, the pagination utility, whose source is
  missing. The specification's words are: "given a zero-based page index and page size,
  return the matching slice [...] plus total-count/total-pages metadata", with
  page-boundary "clamping" and "empty-page behavior": "listing with a page size larger
  than the remaining items returns exactly the remaining items and reports the correct
  total-page count; an out-of-range page returns an empty result, not an error". So the
  offset of page \<open>p\<close> of size \<open>n\<close> is \<open>p * n\<close>, clamped to the number of entries, the
  size of the page is \<open>n\<close>, clamped to what remains after the offset, and the number of
  pages is the number of entries divided by \<open>n\<close>, rounded up. The specification says
  nothing of a negative page index or of a page size below 1.
\<close>

definition PageResultFor :: "PageRequest \<Rightarrow> int \<Rightarrow> PageResult" where
  "PageResultFor request count =
     (let offset = min (PageNo request * ItemSize request) count;
          size = min (ItemSize request) (count - offset)
      in \<lparr>TotalEntries = count,
          TotalPages = (count + ItemSize request - 1) div ItemSize request,
          Page = PageNo request,
          PageSize = size,
          Offset = offset\<rparr>)"

text \<open>
  Go's \<open>make([]T, n)\<close> panics for a negative \<open>n\<close>, and the slice expression
  \<open>xs[lo:hi]\<close> panics unless \<open>0 \<le> lo \<le> hi \<le> cap(xs)\<close>. Between the length and the
  capacity the slice would hold nil pointers, which the loops dereference at once, so the
  model panics beyond the length.
\<close>

definition goSlice :: "'a list \<Rightarrow> int \<Rightarrow> int \<Rightarrow> 'a list option" where
  "goSlice xs lo hi =
     (if 0 \<le> lo \<and> lo \<le> hi \<and> hi \<le> int (length xs)
      then Some (take (nat (hi - lo)) (drop (nat lo) xs)) else None)"

subsection \<open>ListJournals\<close>

fun loadJournals ::
  "InMemoryStore \<Rightarrow> InMemoryJournalRecords list \<Rightarrow> (error + Journal list) option" where
  "loadJournals s [] = Some (Inr [])"
| "loadJournals s (r # rs) =
     Option.bind (GetJournalById s (jr_journalId r))
       (\<lambda>res. case res of
           Inl err \<Rightarrow> Some (Inl err)
         | Inr journal \<Rightarrow>
             Option.bind (loadJournals s rs)
               (\<lambda>rest. case rest of
                   Inl err \<Rightarrow> Some (Inl err)
                 | Inr journals \<Rightarrow> Some (Inr (journal # journals))))"

text \<open>
  The matching records are collected in the order of the \<open>range\<close> loop and then sorted
  by \<open>sort.SliceStable\<close> on the journaling time; \<open>sort_key\<close> is a stable sort.
\<close>

definition journalsBetween ::
  "Time \<Rightarrow> Time \<Rightarrow> InMemoryStore \<Rightarrow> InMemoryJournalRecords list" where
  "journalsBetween fromT untilT s =
     map snd (filter (\<lambda>(k, j). fromT < jr_journalingTime j \<and> jr_journalingTime j < untilT)
                (InMemoryJournalTable s))"

definition ListJournals ::
  "Time \<Rightarrow> Time \<Rightarrow> PageRequest \<Rightarrow> InMemoryStore \<Rightarrow> (error + PageResult \<times> Journal list) option"
where
  "ListJournals fromT untilT request s =
     (let allResult = journalsBetween fromT untilT s;
          count = int (length allResult);
          pageResult = PageResultFor request count;
          sorted = sort_key jr_journalingTime allResult
      in if PageSize pageResult < 0 then Some (Inl PanicSliceBounds)
         else case goSlice sorted (Offset pageResult) (Offset pageResult + PageSize pageResult) of
                None \<Rightarrow> Some (Inl PanicSliceBounds)
              | Some page \<Rightarrow>
                  Option.bind (loadJournals s page)
                    (\<lambda>res. case res of
                        Inl err \<Rightarrow> Some (Inl err)
                      | Inr journals \<Rightarrow> Some (Inr (pageResult, journals))))"

section \<open>The account manager\<close>

definition IsAccountIdExist :: "InMemoryStore \<Rightarrow> string \<Rightarrow> bool \<times> error option" where
  "IsAccountIdExist s ident = (map_of (InMemoryAccountTable s) ident \<noteq> None, None)"

definition accountRecordOf :: "(nat \<Rightarrow> Time) \<Rightarrow> Account \<Rightarrow> InMemoryAccountRecord" where
  "accountRecordOf now account =
     \<lparr>ar_currency = A_GetCurrency account,
      ar_id = A_GetAccountNumber account,
      ar_name = A_GetName account,
      ar_description = A_GetDescription account,
      ar_baseTransactionType = A_GetBaseTransactionType account,
      ar_balance = A_GetBalance account,
      ar_coa = A_GetCOA account,
      ar_createTime = now 0,
      ar_createBy = A_GetCreateBy account,
      ar_updateTime = now 1,
      ar_updateBy = A_GetUpdateBy account\<rparr>"

definition PersistAccount ::
  "(nat \<Rightarrow> Time) \<Rightarrow> Account \<Rightarrow> InMemoryStore \<Rightarrow> error option \<times> InMemoryStore" where
  "PersistAccount now AccountToPersist s =
     (if length (A_GetAccountNumber AccountToPersist) = 0 then (Some ErrAccountMissingID, s)
      else if length (A_GetName AccountToPersist) = 0 then (Some ErrAccountMissingName, s)
      else if length (A_GetDescription AccountToPersist) = 0
        then (Some ErrAccountMissingDescription, s)
      else if length (A_GetCreateBy AccountToPersist) = 0 then (Some ErrAccountMissingCreator, s)
      else
        (case IsAccountIdExist s (A_GetAccountNumber AccountToPersist) of
           (exist, Some err) \<Rightarrow> (Some err, s)
         | (exist, None) \<Rightarrow>
             if exist then (Some ErrAccountAlreadyPersisted, s)
             else
               (let accountRecord = accountRecordOf now AccountToPersist
                in (None, s\<lparr>InMemoryAccountTable :=
                              AList.update (ar_id accountRecord) accountRecord
                                (InMemoryAccountTable s)\<rparr>))))"

definition UpdateAccount ::
  "(nat \<Rightarrow> Time) \<Rightarrow> Account \<Rightarrow> InMemoryStore \<Rightarrow> error option \<times> InMemoryStore" where
  "UpdateAccount now AccountToUpdate s =
     (if length (A_GetAccountNumber AccountToUpdate) = 0 then (Some ErrAccountMissingID, s)
      else if length (A_GetName AccountToUpdate) = 0 then (Some ErrAccountMissingName, s)
      else if length (A_GetDescription AccountToUpdate) = 0
        then (Some ErrAccountMissingDescription, s)
      else if length (A_GetCreateBy AccountToUpdate) = 0 then (Some ErrAccountMissingCreator, s)
      else
        (case IsAccountIdExist s (A_GetAccountNumber AccountToUpdate) of
           (exist, Some err) \<Rightarrow> (Some err, s)
         | (exist, None) \<Rightarrow>
             if \<not> exist then (Some ErrAccountIsNotPersisted, s)
             else
               (let accountRecord = accountRecordOf now AccountToUpdate
                in (None, s\<lparr>InMemoryAccountTable :=
                              AList.update (ar_id accountRecord) accountRecord
                                (InMemoryAccountTable s)\<rparr>))))"

definition toBaseAccount :: "InMemoryAccountRecord \<Rightarrow> Account" where
  "toBaseAccount accountRecord =
     \<lparr>A_GetCurrency = ar_currency accountRecord,
      A_GetAccountNumber = ar_id accountRecord,
      A_GetName = ar_name accountRecord,
      A_GetDescription = ar_description accountRecord,
      A_GetBaseTransactionType = ar_baseTransactionType accountRecord,
      A_GetBalance = ar_balance accountRecord,
      A_GetCOA = ar_coa accountRecord,
      A_GetCreateTime = ar_createTime accountRecord,
      A_GetCreateBy = ar_createBy accountRecord,
      A_GetUpdateTime = ar_updateTime accountRecord,
      A_GetUpdateBy = ar_updateBy accountRecord\<rparr>"

definition GetAccountById :: "InMemoryStore \<Rightarrow> string \<Rightarrow> error + Account" where
  "GetAccountById s ident =
     (case map_of (InMemoryAccountTable s) ident of
        None \<Rightarrow> Inl ErrAccountIdNotFound
      | Some accountRecord \<Rightarrow> Inr (toBaseAccount accountRecord))"

definition ListAccounts :: "PageRequest \<Rightarrow> InMemoryStore \<Rightarrow> error + PageResult \<times> Account list" where
  "ListAccounts request s =
     (let resultSlice = sort_key ar_createTime (map snd (InMemoryAccountTable s));
          pageResult = PageResultFor request (int (length resultSlice))
      in if PageSize pageResult < 0 then Inl PanicSliceBounds
         else case goSlice resultSlice (Offset pageResult)
                     (Offset pageResult + PageSize pageResult) of
                None \<Rightarrow> Inl PanicSliceBounds
              | Some page \<Rightarrow> Inr (pageResult, map toBaseAccount page))"

section \<open>The transaction manager\<close>

definition IsTransactionIdExist :: "InMemoryStore \<Rightarrow> string \<Rightarrow> bool \<times> error option" where
  "IsTransactionIdExist s ident = (map_of (InMemoryTransactionTable s) ident \<noteq> None, None)"

definition GetTransactionById :: "InMemoryStore \<Rightarrow> string \<Rightarrow> error + Transaction" where
  "GetTransactionById s ident =
     (case map_of (InMemoryTransactionTable s) ident of
        None \<Rightarrow> Inl ErrTransactionNotFound
      | Some trx \<Rightarrow> Inr (toBaseTransaction trx))"

text \<open>
  \<open>ListTransactionsOnAccount\<close> as the source has it: the loop keeps every record of
  the account, the parameters \<open>from\<close> and \<open>until\<close> are never read, the page result is
  computed and returned, and the returned slice holds every record kept, sorted on the
  creation time.
\<close>

definition ListTransactionsOnAccount ::
  "Time \<Rightarrow> Time \<Rightarrow> Account \<Rightarrow> PageRequest \<Rightarrow> InMemoryStore \<Rightarrow> PageResult \<times> Transaction list"
where
  "ListTransactionsOnAccount fromT untilT account request s =
     (let resultRecord =
            sort_key tr_createTime
              (map snd (filter (\<lambda>(k, trx). tr_accountNumber trx = A_GetAccountNumber account)
                          (InMemoryTransactionTable s)));
          pageResult = PageResultFor request (int (length resultRecord))
      in (pageResult, map toBaseTransaction resultRecord))"

section \<open>Operations and reachable stores\<close>

text \<open>
  The operations of the three managers that assign to a table, or are declared to. All
  the others (\<open>IsJournalIdExist\<close>, \<open>GetJournalById\<close>, \<open>ListJournals\<close>,
  \<open>IsJournalIdReversed\<close>, \<open>RenderJournal\<close>, \<open>IsAccountIdExist\<close>, \<open>GetAccountById\<close>,
  \<open>ListAccounts\<close>, \<open>ListAccountByCOA\<close>, \<open>FindAccounts\<close>, \<open>IsTransactionIdExist\<close>,
  \<open>GetTransactionById\<close>, \<open>ListTransactionsOnAccount\<close>, \<open>RenderTransactionsOnAccount\<close>
  and the three constructors) read the tables and hand out copies of the records.
\<close>

datatype operation =
    OpPersistJournal "nat \<Rightarrow> Time" "Journal option"
  | OpCommitJournal "Journal option"
  | OpCancelJournal "Journal option"
  | OpPersistAccount "nat \<Rightarrow> Time" Account
  | OpUpdateAccount "nat \<Rightarrow> Time" Account

fun exec :: "operation \<Rightarrow> InMemoryStore \<Rightarrow> error option \<times> InMemoryStore" where
  "exec (OpPersistJournal now j) s = PersistJournal now j s"
| "exec (OpCommitJournal j) s = CommitJournal j s"
| "exec (OpCancelJournal j) s = CancelJournal j s"
| "exec (OpPersistAccount now a) s = PersistAccount now a s"
| "exec (OpUpdateAccount now a) s = UpdateAccount now a s"

fun run :: "operation list \<Rightarrow> InMemoryStore \<Rightarrow> InMemoryStore" where
  "run [] s = s"
| "run (op # ops) s = run ops (snd (exec op s))"

section \<open>A worked scenario\<close>

text \<open>
  The scenario of the specification: account A1 is DEBIT-based, account A2 is
  CREDIT-based, both start at balance 0 in the same currency. Journal J1 posts DEBIT 100
  on A1 and CREDIT 100 on A2. Journal J2 is built as the reversal of J1: CREDIT 100 on A1
  and DEBIT 100 on A2.
\<close>

definition clock :: "nat \<Rightarrow> Time" where
  "clock n = 1000 + int n"

definition accountA1 :: Account where
  "accountA1 =
     \<lparr>A_GetCurrency = ''GOLD'', A_GetAccountNumber = ''A1'', A_GetName = ''Cash'',
      A_GetDescription = ''Cash at hand'', A_GetBaseTransactionType = DEBIT, A_GetBalance = 0,
      A_GetCOA = ''1.1'', A_GetCreateTime = 0, A_GetCreateBy = ''aCreator'',
      A_GetUpdateTime = 0, A_GetUpdateBy = ''aCreator''\<rparr>"

definition accountA2 :: Account where
  "accountA2 =
     \<lparr>A_GetCurrency = ''GOLD'', A_GetAccountNumber = ''A2'', A_GetName = ''Loan'',
      A_GetDescription = ''Bank loan'', A_GetBaseTransactionType = CREDIT, A_GetBalance = 0,
      A_GetCOA = ''2.1'', A_GetCreateTime = 0, A_GetCreateBy = ''aCreator'',
      A_GetUpdateTime = 0, A_GetUpdateBy = ''aCreator''\<rparr>"

definition posting :: "string \<Rightarrow> string \<Rightarrow> TransactionType \<Rightarrow> int64 \<Rightarrow> Transaction" where
  "posting ident accountNumber ty amount =
     \<lparr>T_GetTransactionID = ident, T_GetTransactionTime = 0, T_GetAccountNumber = accountNumber,
      T_GetJournalID = [], T_GetDescription = ''posting'', T_GetTransactionType = ty,
      T_GetAmount = amount, T_GetAccountBalance = 0, T_GetCreateTime = 0,
      T_GetCreateBy = ''aCreator''\<rparr>"

definition journalJ1 :: Journal where
  "journalJ1 =
     BaseJournal ''J1'' 0 ''Loan received'' False None 0
       [posting ''T1'' ''A1'' DEBIT 100, posting ''T2'' ''A2'' CREDIT 100] 0 ''aCreator''"

definition journalJ2 :: Journal where
  "journalJ2 =
     BaseJournal ''J2'' 0 ''Reversal of J1'' True (Some journalJ1) 0
       [posting ''T3'' ''A1'' CREDIT 100, posting ''T4'' ''A2'' DEBIT 100] 0 ''aCreator''"

definition store0 :: InMemoryStore where
  "store0 = run [OpPersistAccount clock accountA1, OpPersistAccount clock accountA2] init"

definition store1 :: InMemoryStore where
  "store1 = run [OpPersistJournal clock (Some journalJ1)] store0"

text \<open>Further journals and accounts used as concrete inputs below.\<close>

definition journalJ1NoTransactions :: Journal where
  "journalJ1NoTransactions = BaseJournal ''J1'' 0 ''Loan received'' False None 0 [] 0 ''aCreator''"

definition journalUnbalancedNoId :: Journal where
  "journalUnbalancedNoId =
     BaseJournal [] 0 ''Unbalanced'' False None 0
       [posting ''T5'' ''A1'' DEBIT 100, posting ''T6'' ''A2'' CREDIT 40] 0 ''aCreator''"

definition journalUnbalanced :: Journal where
  "journalUnbalanced =
     BaseJournal ''J3'' 0 ''Unbalanced'' False None 0
       [posting ''T5'' ''A1'' DEBIT 100, posting ''T6'' ''A2'' CREDIT 40] 0 ''aCreator''"

definition journalUntyped :: Journal where
  "journalUntyped =
     BaseJournal ''J4'' 0 ''Neither debit nor credit'' False None 0
       [posting ''T7'' ''A1'' 7 100, posting ''T8'' ''A2'' 7 40] 0 ''aCreator''"


section \<open>Notions used in the statements\<close>

text \<open>
  The code computes balances and sums in \<open>int64\<close>, where addition and subtraction wrap
  around. \<open>sint\<close> reads an \<open>int64\<close> as the integer it stands for; the definitions below
  give the exact integer results, without wrap-around, to compare the code with.
\<close>

definition inInt64 :: "int \<Rightarrow> bool" where
  "inInt64 k \<longleftrightarrow> - (2 ^ 63) \<le> k \<and> k < 2 ^ 63"

definition exactBalance :: "TransactionType \<Rightarrow> TransactionType \<Rightarrow> int64 \<Rightarrow> int64 \<Rightarrow> int" where
  "exactBalance transactionType accountTrxType balance amount =
     (if transactionType = accountTrxType then sint balance + sint amount
      else sint balance - sint amount)"

definition exactTotalOfType :: "TransactionType \<Rightarrow> Transaction list \<Rightarrow> int" where
  "exactTotalOfType ty ts =
     sum_list (map (\<lambda>t. sint (T_GetAmount t)) (filter (\<lambda>t. T_GetTransactionType t = ty) ts))"

text \<open>
  A journal value conserves the amount \<open>amt\<close>: its \<open>int64\<close> debit total and credit
  total are both \<open>amt\<close>, and whenever the exact debit and credit totals lie in the
  \<open>int64\<close> range they are the integer \<open>amt\<close> stands for.
\<close>

definition journalConserves :: "Journal \<Rightarrow> int64 \<Rightarrow> bool" where
  "journalConserves journal amt \<longleftrightarrow>
     GetTotalDebit journal = amt \<and> GetTotalCredit journal = amt \<and>
     (inInt64 (exactTotalOfType DEBIT (J_GetTransactions journal)) \<and>
      inInt64 (exactTotalOfType CREDIT (J_GetTransactions journal)) \<longrightarrow>
        exactTotalOfType DEBIT (J_GetTransactions journal) = sint amt \<and>
        exactTotalOfType CREDIT (J_GetTransactions journal) = sint amt)"

text \<open>
  An operation in which the journal handed to \<open>PersistJournal\<close>, if any, carries
  pairwise distinct transaction IDs.
\<close>

fun opDistinctIDs :: "operation \<Rightarrow> bool" where
  "opDistinctIDs (OpPersistJournal now (Some j)) =
     distinct (map T_GetTransactionID (J_GetTransactions j))"
| "opDistinctIDs _ = True"

text \<open>
  Facts that hold of every store the managers build from the empty tables: the keys of
  the journal table are distinct, every journal record sits under its own ID and is not
  a reversal, and every transaction record names a journal of the journal table.
\<close>

definition storeInv :: "InMemoryStore \<Rightarrow> bool" where
  "storeInv s \<longleftrightarrow>
     distinct (map fst (InMemoryJournalTable s)) \<and>
     list_all (\<lambda>(k, r). jr_journalId r = k \<and> \<not> jr_reversal r) (InMemoryJournalTable s) \<and>
     list_all (\<lambda>(k, r). map_of (InMemoryJournalTable s) (tr_journalId r) \<noteq> None)
       (InMemoryTransactionTable s)"

text \<open>
  Every journal of the journal table, with the transaction records filed under its ID,
  totals to the amount of its record in debit and in credit.
\<close>

definition storeConserved :: "InMemoryStore \<Rightarrow> bool" where
  "storeConserved s \<longleftrightarrow>
     list_all (\<lambda>(k, r).
         totalOfType DEBIT (transactionsOfJournal s k) 0 = jr_amount r \<and>
         totalOfType CREDIT (transactionsOfJournal s k) 0 = jr_amount r)
       (InMemoryJournalTable s)"

section \<open>Properties of the checks\<close>

lemma totalOfType_acc: "totalOfType ty ts a = a + totalOfType ty ts 0"
proof (induction ts arbitrary: a)
  case Nil show ?case by simp
next
  case (Cons t ts)
  show ?case using Cons.IH[of "a + T_GetAmount t"] Cons.IH[of "T_GetAmount t"] Cons.IH[of a]
    by (simp add: add.assoc)
qed

lemma balanceSums_eq:
  "balanceSums ts c d = (totalOfType CREDIT ts c, totalOfType DEBIT ts d)"
  by (induction ts arbitrary: c d) (simp_all add: Let_def)

lemma in_image_iff_ex: "y \<in> f ` A \<longleftrightarrow> (\<exists>x \<in> A. f x = y)"
  by auto

lemma dup_step:
  "(P \<or> (\<exists>t \<in> A. f t = y \<or> f t \<in> seen)) \<longleftrightarrow>
   ((\<exists>x \<in> A. f x = y) \<or> P \<or> (\<exists>t \<in> A. f t \<in> seen))"
  by auto

lemma accountDupCheck_iff:
  "accountDupCheck ts seen \<longleftrightarrow>
     \<not> distinct (map T_GetAccountNumber ts) \<or> (\<exists>t \<in> set ts. T_GetAccountNumber t \<in> seen)"
proof (induction ts arbitrary: seen)
  case Nil
  show ?case by simp
next
  case (Cons a ts)
  show ?case
  proof (cases "T_GetAccountNumber a \<in> seen")
    case True
    then show ?thesis by simp
  next
    case False
    then show ?thesis
      using Cons.IH [of "insert (T_GetAccountNumber a) seen"]
      by (simp add: in_image_iff_ex dup_step)
  qed
qed

lemma currencyCheck_no_panic:
  "\<forall>t \<in> set ts. map_of tbl (T_GetAccountNumber t) \<noteq> None \<Longrightarrow>
     currencyCheck tbl ts idx cur \<noteq> Some PanicNilDereference"
  by (induction ts arbitrary: idx cur) (auto simp: Let_def split: option.splits)

lemma currencyCheck_cases:
  "currencyCheck tbl ts idx cur = Some e \<Longrightarrow>
     e = PanicNilDereference \<or> e = ErrJournalTransactionMixCurrency"
  by (induction ts arbitrary: idx cur) (auto simp: Let_def split: option.splits if_splits)

lemma reversalCheck_fresh:
  "map_of (InMemoryJournalTable s) (J_GetJournalID j) = None \<Longrightarrow>
     reversalCheck s j =
       (if J_GetReversedJournal j \<noteq> None then Some ErrJournalIdNotFound else None)"
  by (simp add: reversalCheck_def IsJournalIdReversed_def)

lemma validateJournal_Inr_raw:
  assumes "validateJournal s j = Inr c"
  shows "J_GetJournalID j \<noteq> [] \<and> J_GetTransactions j \<noteq> [] \<and> J_GetCreateBy j \<noteq> [] \<and>
         map_of (InMemoryJournalTable s) (J_GetJournalID j) = None \<and>
         \<not> list_ex (\<lambda>trx. length (T_GetTransactionID trx) = 0) (J_GetTransactions j) \<and>
         \<not> list_ex (\<lambda>trx. map_of (InMemoryTransactionTable s) (T_GetTransactionID trx) \<noteq> None)
              (J_GetTransactions j) \<and>
         balanceSums (J_GetTransactions j) 0 0 = (c, c) \<and>
         \<not> accountDupCheck (J_GetTransactions j) {} \<and>
         \<not> list_ex (\<lambda>trx. map_of (InMemoryAccountTable s) (T_GetAccountNumber trx) = None)
              (J_GetTransactions j) \<and>
         currencyCheck (InMemoryAccountTable s) (J_GetTransactions j) 0 [] = None \<and>
         reversalCheck s j = None"
  using assms unfolding validateJournal_def
  by (simp split: if_splits prod.splits option.splits)

lemma validateJournal_Inr:
  assumes "validateJournal s j = Inr c"
  shows "J_GetJournalID j \<noteq> []"
    and "J_GetTransactions j \<noteq> []"
    and "J_GetCreateBy j \<noteq> []"
    and "map_of (InMemoryJournalTable s) (J_GetJournalID j) = None"
    and "\<forall>t \<in> set (J_GetTransactions j). T_GetTransactionID t \<noteq> []"
    and "\<forall>t \<in> set (J_GetTransactions j).
           map_of (InMemoryTransactionTable s) (T_GetTransactionID t) = None"
    and "c = GetTotalCredit j"
    and "GetTotalDebit j = GetTotalCredit j"
    and "distinct (map T_GetAccountNumber (J_GetTransactions j))"
    and "\<forall>t \<in> set (J_GetTransactions j).
           map_of (InMemoryAccountTable s) (T_GetAccountNumber t) \<noteq> None"
    and "J_GetReversedJournal j = None"
proof -
  note raw = validateJournal_Inr_raw [OF assms]
  show "J_GetJournalID j \<noteq> []" and "J_GetTransactions j \<noteq> []" and "J_GetCreateBy j \<noteq> []"
    and fresh: "map_of (InMemoryJournalTable s) (J_GetJournalID j) = None"
    using raw by simp_all
  show "\<forall>t \<in> set (J_GetTransactions j). T_GetTransactionID t \<noteq> []"
    using raw by (simp add: list_ex_iff)
  show "\<forall>t \<in> set (J_GetTransactions j).
           map_of (InMemoryTransactionTable s) (T_GetTransactionID t) = None"
    using raw by (simp add: list_ex_iff)
  show "c = GetTotalCredit j" and "GetTotalDebit j = GetTotalCredit j"
    using raw by (simp_all add: balanceSums_eq GetTotalCredit_def GetTotalDebit_def)
  show "distinct (map T_GetAccountNumber (J_GetTransactions j))"
    using raw by (simp add: accountDupCheck_iff)
  show "\<forall>t \<in> set (J_GetTransactions j).
           map_of (InMemoryAccountTable s) (T_GetAccountNumber t) \<noteq> None"
    using raw by (simp add: list_ex_iff)
  show "J_GetReversedJournal j = None"
    using raw fresh by (simp add: reversalCheck_fresh split: if_splits)
qed

lemma currencyCheck_err:
  assumes "\<not> list_ex (\<lambda>trx. map_of tbl (T_GetAccountNumber trx) = None) ts"
    and "currencyCheck tbl ts idx cur = Some e"
  shows "e = ErrJournalTransactionMixCurrency"
proof -
  have "\<forall>t \<in> set ts. map_of tbl (T_GetAccountNumber t) \<noteq> None"
    using assms(1) by (simp add: list_ex_iff)
  from currencyCheck_no_panic [OF this, of idx cur] currencyCheck_cases [OF assms(2)]
  show ?thesis using assms(2) by simp
qed

lemma validateJournal_Inl_cases:
  assumes "validateJournal s j = Inl e"
  shows "e \<in> {ErrJournalMissingId, ErrJournalNoTransaction, ErrJournalMissingAuthor,
              ErrJournalAlreadyPersisted, ErrJournalTransactionMissingID,
              ErrJournalTransactionAlreadyPersisted, ErrJournalNotBalance,
              ErrJournalTransactionAccountDuplicate, ErrJournalTransactionAccountNotPersist,
              ErrJournalTransactionMixCurrency, ErrJournalIdNotFound}"
  using assms unfolding validateJournal_def
  by (auto simp: reversalCheck_fresh split: if_splits prod.splits option.splits
        dest: currencyCheck_err)

subsection \<open>The write phase\<close>

lemma postTransaction_journal [simp]:
  "InMemoryJournalTable (postTransaction now n jid trx account s) = InMemoryJournalTable s"
  by (simp add: postTransaction_def Let_def)

lemma postTransaction_accounts:
  "map_of (InMemoryAccountTable (postTransaction now n jid trx account s)) =
     (map_of (InMemoryAccountTable s))(T_GetAccountNumber trx \<mapsto>
        account\<lparr>ar_balance := newBalanceOf (T_GetTransactionType trx)
                   (ar_baseTransactionType account) (ar_balance account) (T_GetAmount trx),
                ar_updateTime := now (n + 2), ar_updateBy := T_GetCreateBy trx\<rparr>)"
  by (simp add: postTransaction_def Let_def AList.update_conv')

lemma postTransaction_transactions:
  "map_of (InMemoryTransactionTable (postTransaction now n jid trx account s)) =
     (map_of (InMemoryTransactionTable s))(T_GetTransactionID trx \<mapsto>
        \<lparr>tr_transactionId = T_GetTransactionID trx,
         tr_transactionTime = now n,
         tr_accountNumber = T_GetAccountNumber trx,
         tr_journalId = jid,
         tr_description = T_GetDescription trx,
         tr_transactionType = T_GetTransactionType trx,
         tr_amount = T_GetAmount trx,
         tr_accountBalance = newBalanceOf (T_GetTransactionType trx)
                   (ar_baseTransactionType account) (ar_balance account) (T_GetAmount trx),
         tr_createTime = now (n + 1),
         tr_createBy = T_GetCreateBy trx\<rparr>)"
  by (simp add: postTransaction_def Let_def AList.update_conv')

lemma persistTransactions_journal:
  "InMemoryJournalTable (snd (persistTransactions now n jid ts s)) = InMemoryJournalTable s"
  by (induction ts arbitrary: n s) (simp_all split: option.splits)

lemma persistTransactions_ok:
  "\<forall>t \<in> set ts. map_of (InMemoryAccountTable s) (T_GetAccountNumber t) \<noteq> None \<Longrightarrow>
     fst (persistTransactions now n jid ts s) = None"
proof (induction ts arbitrary: n s)
  case Nil
  show ?case by simp
next
  case (Cons t ts)
  from Cons.prems obtain account where
    acc: "map_of (InMemoryAccountTable s) (T_GetAccountNumber t) = Some account"
    by auto
  have "\<forall>u \<in> set ts. map_of (InMemoryAccountTable (postTransaction now n jid t account s))
          (T_GetAccountNumber u) \<noteq> None"
    using Cons.prems by (simp add: postTransaction_accounts)
  from Cons.IH [OF this] show ?case using acc by simp
qed

lemma persistTransactions_account_other:
  "a \<notin> T_GetAccountNumber ` set ts \<Longrightarrow>
     map_of (InMemoryAccountTable (snd (persistTransactions now n jid ts s))) a =
       map_of (InMemoryAccountTable s) a"
proof (induction ts arbitrary: n s)
  case Nil
  show ?case by simp
next
  case (Cons t ts)
  show ?case
  proof (cases "map_of (InMemoryAccountTable s) (T_GetAccountNumber t)")
    case None
    then show ?thesis by simp
  next
    case (Some account)
    have "a \<notin> T_GetAccountNumber ` set ts" and "a \<noteq> T_GetAccountNumber t"
      using Cons.prems by auto
    then show ?thesis using Some Cons.IH [of "n + 3" "postTransaction now n jid t account s"]
      by (simp add: postTransaction_accounts)
  qed
qed

lemma persistTransactions_transaction_other:
  "k \<notin> T_GetTransactionID ` set ts \<Longrightarrow>
     map_of (InMemoryTransactionTable (snd (persistTransactions now n jid ts s))) k =
       map_of (InMemoryTransactionTable s) k"
proof (induction ts arbitrary: n s)
  case Nil
  show ?case by simp
next
  case (Cons t ts)
  show ?case
  proof (cases "map_of (InMemoryAccountTable s) (T_GetAccountNumber t)")
    case None
    then show ?thesis by simp
  next
    case (Some account)
    have "k \<notin> T_GetTransactionID ` set ts" and "k \<noteq> T_GetTransactionID t"
      using Cons.prems by auto
    then show ?thesis using Some Cons.IH [of "n + 3" "postTransaction now n jid t account s"]
      by (simp add: postTransaction_transactions)
  qed
qed

lemma persistTransactions_Cons_Some:
  "map_of (InMemoryAccountTable s) (T_GetAccountNumber u) = Some au \<Longrightarrow>
     persistTransactions now n jid (u # ts) s =
       persistTransactions now (n + 3) jid ts (postTransaction now n jid u au s)"
  by simp

lemma persistTransactions_Cons_None:
  "map_of (InMemoryAccountTable s) (T_GetAccountNumber u) = None \<Longrightarrow>
     persistTransactions now n jid (u # ts) s = (Some PanicNilDereference, s)"
  by simp

lemma persistTransactions_account_posted:
  assumes "distinct (map T_GetAccountNumber ts)"
    and "t \<in> set ts"
    and "map_of (InMemoryAccountTable s) (T_GetAccountNumber t) = Some acc"
    and "fst (persistTransactions now n jid ts s) = None"
  shows "\<exists>acc'. map_of (InMemoryAccountTable (snd (persistTransactions now n jid ts s)))
                  (T_GetAccountNumber t) = Some acc' \<and>
               ar_balance acc' =
                 newBalanceOf (T_GetTransactionType t) (ar_baseTransactionType acc)
                   (ar_balance acc) (T_GetAmount t) \<and>
               ar_baseTransactionType acc' = ar_baseTransactionType acc"
  using assms
proof (induction ts arbitrary: n s)
  case Nil
  then show ?case by simp
next
  case (Cons u ts)
  show ?case
  proof (cases "map_of (InMemoryAccountTable s) (T_GetAccountNumber u)")
    case None
    then show ?thesis using Cons.prems(4) by simp
  next
    case (Some au)
    let ?s2 = "postTransaction now n jid u au s"
    note step = persistTransactions_Cons_Some [OF Some, of now n jid ts]
    have notin: "T_GetAccountNumber u \<notin> T_GetAccountNumber ` set ts"
      and dist: "distinct (map T_GetAccountNumber ts)"
      using Cons.prems(1) by simp_all
    show ?thesis
    proof (cases "t = u")
      case True
      then have au: "au = acc" using Some Cons.prems(3) by simp
      have "map_of (InMemoryAccountTable (snd (persistTransactions now (n + 3) jid ts ?s2)))
              (T_GetAccountNumber u) =
            map_of (InMemoryAccountTable ?s2) (T_GetAccountNumber u)"
        by (rule persistTransactions_account_other [OF notin])
      then show ?thesis using True au
        by (simp only: step) (simp add: postTransaction_accounts)
    next
      case False
      then have tin: "t \<in> set ts" using Cons.prems(2) by simp
      then have "T_GetAccountNumber t \<in> T_GetAccountNumber ` set ts" by (rule imageI)
      then have ne: "T_GetAccountNumber t \<noteq> T_GetAccountNumber u" using notin by metis
      have acc2: "map_of (InMemoryAccountTable ?s2) (T_GetAccountNumber t) = Some acc"
        using Cons.prems(3) ne by (simp add: postTransaction_accounts)
      have ok2: "fst (persistTransactions now (n + 3) jid ts ?s2) = None"
        using Cons.prems(4) by (simp only: step)
      from Cons.IH [OF dist tin acc2 ok2] show ?thesis by (simp only: step)
    qed
  qed
qed

lemma persistTransactions_record_posted:
  assumes "distinct (map T_GetAccountNumber ts)"
    and "fst (persistTransactions now n jid ts s) = None"
    and "map_of (InMemoryTransactionTable (snd (persistTransactions now n jid ts s))) k = Some r"
  shows "map_of (InMemoryTransactionTable s) k = Some r \<or>
         (tr_accountNumber r \<in> T_GetAccountNumber ` set ts \<and>
          (\<exists>acc acc'.
             map_of (InMemoryAccountTable s) (tr_accountNumber r) = Some acc \<and>
             map_of (InMemoryAccountTable (snd (persistTransactions now n jid ts s)))
               (tr_accountNumber r) = Some acc' \<and>
             tr_accountBalance r =
               newBalanceOf (tr_transactionType r) (ar_baseTransactionType acc)
                 (ar_balance acc) (tr_amount r) \<and>
             ar_balance acc' = tr_accountBalance r))"
  using assms
proof (induction ts arbitrary: n s)
  case Nil
  then show ?case by simp
next
  case (Cons u ts)
  show ?case
  proof (cases "map_of (InMemoryAccountTable s) (T_GetAccountNumber u)")
    case None
    then show ?thesis using Cons.prems(2) by simp
  next
    case (Some au)
    let ?s2 = "postTransaction now n jid u au s"
    let ?s' = "snd (persistTransactions now (n + 3) jid ts ?s2)"
    note step = persistTransactions_Cons_Some [OF Some, of now n jid ts]
    have notin: "T_GetAccountNumber u \<notin> T_GetAccountNumber ` set ts"
      and dist: "distinct (map T_GetAccountNumber ts)"
      using Cons.prems(1) by simp_all
    have ok2: "fst (persistTransactions now (n + 3) jid ts ?s2) = None"
      using Cons.prems(2) by (simp only: step)
    have r2: "map_of (InMemoryTransactionTable ?s') k = Some r"
      using Cons.prems(3) by (simp only: step)
    from Cons.IH [OF dist ok2 r2]
    consider (old) "map_of (InMemoryTransactionTable ?s2) k = Some r"
      | (new) "tr_accountNumber r \<in> T_GetAccountNumber ` set ts"
          "\<exists>acc acc'.
             map_of (InMemoryAccountTable ?s2) (tr_accountNumber r) = Some acc \<and>
             map_of (InMemoryAccountTable ?s') (tr_accountNumber r) = Some acc' \<and>
             tr_accountBalance r =
               newBalanceOf (tr_transactionType r) (ar_baseTransactionType acc)
                 (ar_balance acc) (tr_amount r) \<and>
             ar_balance acc' = tr_accountBalance r"
      by blast
    then show ?thesis
    proof cases
      case new
      from new(1) notin have ne: "tr_accountNumber r \<noteq> T_GetAccountNumber u" by metis
      have "map_of (InMemoryAccountTable ?s2) (tr_accountNumber r) =
            map_of (InMemoryAccountTable s) (tr_accountNumber r)"
        using ne by (simp add: postTransaction_accounts)
      then show ?thesis using new by (simp only: step) simp
    next
      case old
      show ?thesis
      proof (cases "k = T_GetTransactionID u")
        case False
        then have "map_of (InMemoryTransactionTable s) k = Some r"
          using old by (simp add: postTransaction_transactions)
        then show ?thesis by simp
      next
        case True
        have r: "r = \<lparr>tr_transactionId = T_GetTransactionID u,
                 tr_transactionTime = now n,
                 tr_accountNumber = T_GetAccountNumber u,
                 tr_journalId = jid,
                 tr_description = T_GetDescription u,
                 tr_transactionType = T_GetTransactionType u,
                 tr_amount = T_GetAmount u,
                 tr_accountBalance = newBalanceOf (T_GetTransactionType u)
                   (ar_baseTransactionType au) (ar_balance au) (T_GetAmount u),
                 tr_createTime = now (n + 1),
                 tr_createBy = T_GetCreateBy u\<rparr>"
          using old True by (simp add: postTransaction_transactions)
        have "map_of (InMemoryAccountTable ?s') (T_GetAccountNumber u) =
              map_of (InMemoryAccountTable ?s2) (T_GetAccountNumber u)"
          by (rule persistTransactions_account_other [OF notin])
        then show ?thesis using Some
          by (simp only: step) (simp add: r postTransaction_accounts)
      qed
    qed
  qed
qed

subsection \<open>PersistJournal as a whole\<close>

lemma PersistJournal_Some_validate:
  "PersistJournal now (Some j) s =
     (case validateJournal s j of
        Inl err \<Rightarrow> (Some err, s)
      | Inr creditSum \<Rightarrow>
          persistTransactions now 2 (J_GetJournalID j) (J_GetTransactions j)
            (s\<lparr>InMemoryJournalTable :=
                 AList.update (J_GetJournalID j) (journalRecordOf now j creditSum)
                   (InMemoryJournalTable s)\<rparr>))"
  by (simp add: PersistJournal_def Let_def journalRecordOf_def split: sum.splits option.splits)

lemma PersistJournal_valid_ok:
  assumes "validateJournal s j = Inr c"
  shows "fst (PersistJournal now (Some j) s) = None"
proof -
  have "\<forall>t \<in> set (J_GetTransactions j).
          map_of (InMemoryAccountTable
                    (s\<lparr>InMemoryJournalTable :=
                         AList.update (J_GetJournalID j) (journalRecordOf now j c)
                           (InMemoryJournalTable s)\<rparr>)) (T_GetAccountNumber t) \<noteq> None"
    using validateJournal_Inr(10) [OF assms] by simp
  from persistTransactions_ok [OF this] show ?thesis
    using assms by (simp add: PersistJournal_Some_validate)
qed

lemma PersistJournal_error_validate:
  assumes "PersistJournal now (Some j) s = (Some err, s')"
  shows "validateJournal s j = Inl err \<and> s' = s"
proof (cases "validateJournal s j")
  case (Inl e)
  then show ?thesis using assms by (simp add: PersistJournal_Some_validate)
next
  case (Inr c)
  from PersistJournal_valid_ok [OF this, of now] show ?thesis using assms by simp
qed

lemma PersistJournal_success_validate:
  assumes "PersistJournal now (Some j) s = (None, s')"
  shows "validateJournal s j = Inr (GetTotalCredit j)"
proof (cases "validateJournal s j")
  case (Inl e)
  then show ?thesis using assms by (simp add: PersistJournal_Some_validate)
next
  case (Inr c)
  then show ?thesis using validateJournal_Inr(7) [OF Inr] by simp
qed

lemma PersistJournal_reversal_rejected:
  assumes "J_GetReversedJournal j \<noteq> None"
  shows "\<exists>err. PersistJournal now (Some j) s = (Some err, s) \<and> err \<noteq> ErrJournalCanNotDoubleReverse"
proof (cases "validateJournal s j")
  case (Inl e)
  from validateJournal_Inl_cases [OF this] have "e \<noteq> ErrJournalCanNotDoubleReverse" by auto
  then show ?thesis using Inl by (simp add: PersistJournal_Some_validate)
next
  case (Inr c)
  from validateJournal_Inr(11) [OF this] show ?thesis using assms by simp
qed

lemma validateJournal_present:
  assumes "map_of (InMemoryJournalTable s) (J_GetJournalID j) \<noteq> None"
  shows "validateJournal s j =
           (if J_GetJournalID j = [] then Inl ErrJournalMissingId
            else if J_GetTransactions j = [] then Inl ErrJournalNoTransaction
            else if J_GetCreateBy j = [] then Inl ErrJournalMissingAuthor
            else Inl ErrJournalAlreadyPersisted)"
  using assms by (simp add: validateJournal_def)



lemma journalRecordOf_amount [simp]: "jr_amount (journalRecordOf now j c) = c"
  by (simp add: journalRecordOf_def Let_def split: option.splits)

lemma persistTransactions_record_of:
  assumes "t \<in> set ts"
    and "\<forall>u \<in> set ts. T_GetTransactionID u = T_GetTransactionID t \<longrightarrow> u = t"
    and "fst (persistTransactions now n jid ts s) = None"
  shows "\<exists>r. map_of (InMemoryTransactionTable (snd (persistTransactions now n jid ts s)))
               (T_GetTransactionID t) = Some r \<and>
             tr_accountNumber r = T_GetAccountNumber t \<and>
             tr_transactionType r = T_GetTransactionType t \<and>
             tr_amount r = T_GetAmount t \<and> tr_journalId r = jid"
  using assms
proof (induction ts arbitrary: n s)
  case Nil
  then show ?case by simp
next
  case (Cons u ts)
  show ?case
  proof (cases "map_of (InMemoryAccountTable s) (T_GetAccountNumber u)")
    case None
    then show ?thesis using Cons.prems(3) by simp
  next
    case (Some au)
    let ?s2 = "postTransaction now n jid u au s"
    note step = persistTransactions_Cons_Some [OF Some, of now n jid ts]
    have ok2: "fst (persistTransactions now (n + 3) jid ts ?s2) = None"
      using Cons.prems(3) by (simp only: step)
    have uniq: "\<forall>v \<in> set ts. T_GetTransactionID v = T_GetTransactionID t \<longrightarrow> v = t"
      using Cons.prems(2) by simp
    show ?thesis
    proof (cases "t \<in> set ts")
      case True
      from Cons.IH [OF True uniq ok2] show ?thesis by (simp only: step)
    next
      case False
      then have tu: "t = u" using Cons.prems(1) by simp
      have "T_GetTransactionID t \<notin> T_GetTransactionID ` set ts"
      proof
        assume "T_GetTransactionID t \<in> T_GetTransactionID ` set ts"
        then obtain v where "v \<in> set ts" and "T_GetTransactionID v = T_GetTransactionID t"
          by (metis in_image_iff_ex)
        then show False using uniq False by metis
      qed
      from persistTransactions_transaction_other [OF this, of now "n + 3" jid ?s2]
      show ?thesis using tu by (simp only: step) (simp add: postTransaction_transactions)
    qed
  qed
qed

lemma reversalCheck_cases:
  "reversalCheck s j = Some e \<Longrightarrow> e = ErrJournalIdNotFound \<or> e = ErrJournalCanNotDoubleReverse"
  by (auto simp: reversalCheck_def IsJournalIdReversed_def split: if_splits option.splits)

lemma validateJournal_NotBalance:
  assumes "validateJournal s j = Inl ErrJournalNotBalance"
  shows "GetTotalDebit j \<noteq> GetTotalCredit j"
  using assms unfolding validateJournal_def
  by (auto simp: balanceSums_eq GetTotalDebit_def GetTotalCredit_def
        split: if_splits prod.splits option.splits
        dest: currencyCheck_cases reversalCheck_cases)

lemma totalOfType_none:
  "\<forall>t \<in> set ts. T_GetTransactionType t \<noteq> ty \<Longrightarrow> totalOfType ty ts a = a"
  by (induction ts arbitrary: a) simp_all

lemma PersistJournal_success_store:
  assumes "PersistJournal now (Some j) s = (None, s')"
  shows "s' = snd (persistTransactions now 2 (J_GetJournalID j) (J_GetTransactions j)
            (s\<lparr>InMemoryJournalTable :=
                 AList.update (J_GetJournalID j) (journalRecordOf now j (GetTotalCredit j))
                   (InMemoryJournalTable s)\<rparr>))"
    and "fst (persistTransactions now 2 (J_GetJournalID j) (J_GetTransactions j)
            (s\<lparr>InMemoryJournalTable :=
                 AList.update (J_GetJournalID j) (journalRecordOf now j (GetTotalCredit j))
                   (InMemoryJournalTable s)\<rparr>)) = None"
  using assms PersistJournal_success_validate [OF assms]
  by (simp_all add: PersistJournal_Some_validate)

lemma PersistJournal_accounts_posted:
  assumes "PersistJournal now (Some j) s = (None, s')"
    and "t \<in> set (J_GetTransactions j)"
  shows "\<exists>acc acc'.
           map_of (InMemoryAccountTable s) (T_GetAccountNumber t) = Some acc \<and>
           map_of (InMemoryAccountTable s') (T_GetAccountNumber t) = Some acc' \<and>
           ar_balance acc' =
             (if T_GetTransactionType t = ar_baseTransactionType acc
              then ar_balance acc + T_GetAmount t else ar_balance acc - T_GetAmount t)"
proof -
  let ?s1 = "s\<lparr>InMemoryJournalTable :=
                 AList.update (J_GetJournalID j) (journalRecordOf now j (GetTotalCredit j))
                   (InMemoryJournalTable s)\<rparr>"
  note v = PersistJournal_success_validate [OF assms(1)]
  from validateJournal_Inr(10) [OF v] assms(2) obtain acc where
    acc: "map_of (InMemoryAccountTable s) (T_GetAccountNumber t) = Some acc"
    by (metis not_Some_eq)
  then have acc1: "map_of (InMemoryAccountTable ?s1) (T_GetAccountNumber t) = Some acc"
    by simp
  from persistTransactions_account_posted
    [OF validateJournal_Inr(9) [OF v] assms(2) acc1 PersistJournal_success_store(2) [OF assms(1)]]
  obtain acc' where
    a: "map_of (InMemoryAccountTable
          (snd (persistTransactions now 2 (J_GetJournalID j) (J_GetTransactions j) ?s1)))
          (T_GetAccountNumber t) = Some acc'"
    and b: "ar_balance acc' =
          newBalanceOf (T_GetTransactionType t) (ar_baseTransactionType acc)
            (ar_balance acc) (T_GetAmount t)"
    by (elim exE conjE)
  have a': "map_of (InMemoryAccountTable s') (T_GetAccountNumber t) = Some acc'"
    using a PersistJournal_success_store(1) [OF assms(1)] by simp
  show ?thesis
    by (intro exI [of _ acc] exI [of _ acc'] conjI)
       (rule acc, rule a', rule b [unfolded newBalanceOf_def])
qed

lemma PersistJournal_records_posted:
  assumes "PersistJournal now (Some j) s = (None, s')"
    and "map_of (InMemoryTransactionTable s') k = Some r"
    and "map_of (InMemoryTransactionTable s) k = None"
  shows "\<exists>acc acc'.
           map_of (InMemoryAccountTable s) (tr_accountNumber r) = Some acc \<and>
           map_of (InMemoryAccountTable s') (tr_accountNumber r) = Some acc' \<and>
           tr_accountBalance r =
             (if tr_transactionType r = ar_baseTransactionType acc
              then ar_balance acc + tr_amount r else ar_balance acc - tr_amount r) \<and>
           ar_balance acc' = tr_accountBalance r"
proof -
  let ?s1 = "s\<lparr>InMemoryJournalTable :=
                 AList.update (J_GetJournalID j) (journalRecordOf now j (GetTotalCredit j))
                   (InMemoryJournalTable s)\<rparr>"
  note v = PersistJournal_success_validate [OF assms(1)]
  note st = PersistJournal_success_store [OF assms(1)]
  have r: "map_of (InMemoryTransactionTable
             (snd (persistTransactions now 2 (J_GetJournalID j) (J_GetTransactions j) ?s1))) k
           = Some r"
    using assms(2) st(1) by simp
  have old: "map_of (InMemoryTransactionTable ?s1) k \<noteq> Some r"
    using assms(3) by simp
  from persistTransactions_record_posted [OF validateJournal_Inr(9) [OF v] st(2) r] old
  have "\<exists>acc acc'.
          map_of (InMemoryAccountTable ?s1) (tr_accountNumber r) = Some acc \<and>
          map_of (InMemoryAccountTable
            (snd (persistTransactions now 2 (J_GetJournalID j) (J_GetTransactions j) ?s1)))
            (tr_accountNumber r) = Some acc' \<and>
          tr_accountBalance r =
            newBalanceOf (tr_transactionType r) (ar_baseTransactionType acc)
              (ar_balance acc) (tr_amount r) \<and>
          ar_balance acc' = tr_accountBalance r"
    by (elim disjE conjE) (rule notE [OF old], assumption+)
  then obtain acc acc' where
    a: "map_of (InMemoryAccountTable ?s1) (tr_accountNumber r) = Some acc"
    and b: "map_of (InMemoryAccountTable
          (snd (persistTransactions now 2 (J_GetJournalID j) (J_GetTransactions j) ?s1)))
          (tr_accountNumber r) = Some acc'"
    and c: "tr_accountBalance r =
          newBalanceOf (tr_transactionType r) (ar_baseTransactionType acc)
            (ar_balance acc) (tr_amount r)"
    and d: "ar_balance acc' = tr_accountBalance r"
    by (elim exE conjE)
  have a': "map_of (InMemoryAccountTable s) (tr_accountNumber r) = Some acc"
    using a by simp
  have b': "map_of (InMemoryAccountTable s') (tr_accountNumber r) = Some acc'"
    using b st(1) by simp
  show ?thesis
    by (intro exI [of _ acc] exI [of _ acc'] conjI)
       (rule a', rule b', rule c [unfolded newBalanceOf_def], rule d)
qed

lemma PersistJournal_record_of:
  assumes "PersistJournal now (Some j) s = (None, s')"
    and "t \<in> set (J_GetTransactions j)"
    and "\<forall>u \<in> set (J_GetTransactions j). T_GetTransactionID u = T_GetTransactionID t \<longrightarrow> u = t"
  shows "\<exists>r. map_of (InMemoryTransactionTable s') (T_GetTransactionID t) = Some r \<and>
             tr_accountNumber r = T_GetAccountNumber t \<and>
             tr_transactionType r = T_GetTransactionType t \<and>
             tr_amount r = T_GetAmount t \<and> tr_journalId r = J_GetJournalID j"
  using persistTransactions_record_of [OF assms(2,3) PersistJournal_success_store(2) [OF assms(1)]]
    PersistJournal_success_store(1) [OF assms(1)]
  by simp

subsection \<open>Exact integers and association lists\<close>

lemma sint_exact: "inInt64 k \<Longrightarrow> sint (word_of_int k :: int64) = k"
  by (simp add: inInt64_def sint_sbintrunc' signed_take_bit_int_eq_self)

lemma newBalanceOf_exact:
  "newBalanceOf ty base bal amt = word_of_int (exactBalance ty base bal amt)"
  by (simp add: newBalanceOf_def exactBalance_def)

lemma totalOfType_exact: "totalOfType ty ts 0 = word_of_int (exactTotalOfType ty ts)"
proof (induction ts)
  case Nil
  show ?case by (simp add: exactTotalOfType_def)
next
  case (Cons t ts)
  show ?case using Cons.IH totalOfType_acc [of ty ts "T_GetAmount t"]
    by (simp add: exactTotalOfType_def)
qed

lemma update_fresh: "map_of al k = None \<Longrightarrow> AList.update k v al = al @ [(k, v)]"
  by (induction al) (auto split: if_splits)

lemma set_update_subset: "set (AList.update k v al) \<subseteq> insert (k, v) (set al)"
  by (induction al) auto

subsection \<open>The transaction table after the write phase\<close>

lemma postTransaction_transactions_fresh:
  assumes "map_of (InMemoryTransactionTable s) (T_GetTransactionID u) = None"
  shows "\<exists>r. InMemoryTransactionTable (postTransaction now n jid u au s) =
               InMemoryTransactionTable s @ [(T_GetTransactionID u, r)] \<and>
             tr_journalId r = jid \<and> tr_transactionType r = T_GetTransactionType u \<and>
             tr_amount r = T_GetAmount u"
  using assms by (simp add: postTransaction_def Let_def update_fresh)

lemma postTransaction_transactions_set:
  assumes "(k, r) \<in> set (InMemoryTransactionTable (postTransaction now n jid u au s))"
  shows "(k, r) \<in> set (InMemoryTransactionTable s) \<or> tr_journalId r = jid"
proof -
  let ?r = "\<lparr>tr_transactionId = T_GetTransactionID u,
         tr_transactionTime = now n,
         tr_accountNumber = T_GetAccountNumber u,
         tr_journalId = jid,
         tr_description = T_GetDescription u,
         tr_transactionType = T_GetTransactionType u,
         tr_amount = T_GetAmount u,
         tr_accountBalance = newBalanceOf (T_GetTransactionType u)
                   (ar_baseTransactionType au) (ar_balance au) (T_GetAmount u),
         tr_createTime = now (n + 1),
         tr_createBy = T_GetCreateBy u\<rparr>"
  have eq: "InMemoryTransactionTable (postTransaction now n jid u au s) =
        AList.update (T_GetTransactionID u) ?r (InMemoryTransactionTable s)"
    by (simp add: postTransaction_def Let_def)
  have "(k, r) \<in> insert (T_GetTransactionID u, ?r) (set (InMemoryTransactionTable s))"
    using set_update_subset [of "T_GetTransactionID u" ?r "InMemoryTransactionTable s"] eq assms
    by (metis subsetD)
  then have "(k, r) = (T_GetTransactionID u, ?r) \<or> (k, r) \<in> set (InMemoryTransactionTable s)"
    by (simp only: insert_iff)
  then show ?thesis
  proof
    assume "(k, r) = (T_GetTransactionID u, ?r)"
    then have "r = ?r" by (simp only: prod.inject)
    then show ?thesis by simp
  next
    assume "(k, r) \<in> set (InMemoryTransactionTable s)"
    then show ?thesis by (rule disjI1)
  qed
qed

lemma persistTransactions_transactions_set:
  assumes "(k, r) \<in> set (InMemoryTransactionTable (snd (persistTransactions now n jid ts s)))"
  shows "(k, r) \<in> set (InMemoryTransactionTable s) \<or> tr_journalId r = jid"
  using assms
proof (induction ts arbitrary: n s)
  case Nil
  then show ?case by simp
next
  case (Cons u ts)
  show ?case
  proof (cases "map_of (InMemoryAccountTable s) (T_GetAccountNumber u)")
    case None
    then show ?thesis using Cons.prems by simp
  next
    case (Some au)
    note step = persistTransactions_Cons_Some [OF Some, of now n jid ts]
    have "(k, r) \<in> set (InMemoryTransactionTable
            (snd (persistTransactions now (n + 3) jid ts (postTransaction now n jid u au s))))"
      using Cons.prems by (simp only: step)
    from Cons.IH [OF this]
    show ?thesis
    proof
      assume "(k, r) \<in> set (InMemoryTransactionTable (postTransaction now n jid u au s))"
      then show ?thesis by (rule postTransaction_transactions_set)
    next
      assume "tr_journalId r = jid"
      then show ?thesis by (rule disjI2)
    qed
  qed
qed

lemma persistTransactions_transactions_append:
  assumes "distinct (map T_GetTransactionID ts)"
    and "\<forall>t \<in> set ts. map_of (InMemoryTransactionTable s) (T_GetTransactionID t) = None"
    and "fst (persistTransactions now n jid ts s) = None"
  shows "\<exists>rs. InMemoryTransactionTable (snd (persistTransactions now n jid ts s)) =
                InMemoryTransactionTable s @ rs \<and>
              list_all (\<lambda>(k, r). tr_journalId r = jid) rs \<and>
              map (\<lambda>(k, r). (tr_transactionType r, tr_amount r)) rs =
                map (\<lambda>t. (T_GetTransactionType t, T_GetAmount t)) ts"
  using assms
proof (induction ts arbitrary: n s)
  case Nil
  then show ?case by simp
next
  case (Cons u ts)
  show ?case
  proof (cases "map_of (InMemoryAccountTable s) (T_GetAccountNumber u)")
    case None
    then show ?thesis using Cons.prems(3) by simp
  next
    case (Some au)
    let ?s2 = "postTransaction now n jid u au s"
    note step = persistTransactions_Cons_Some [OF Some, of now n jid ts]
    have fresh_u: "map_of (InMemoryTransactionTable s) (T_GetTransactionID u) = None"
      using Cons.prems(2) by simp
    from postTransaction_transactions_fresh [OF fresh_u, of now n jid au]
    obtain r where
      tbl2: "InMemoryTransactionTable ?s2 = InMemoryTransactionTable s @ [(T_GetTransactionID u, r)]"
      and r: "tr_journalId r = jid" "tr_transactionType r = T_GetTransactionType u"
        "tr_amount r = T_GetAmount u"
      by (elim exE conjE)
    have dist: "distinct (map T_GetTransactionID ts)"
      and notin: "T_GetTransactionID u \<notin> T_GetTransactionID ` set ts"
      using Cons.prems(1) by simp_all
    have fresh2: "\<forall>t \<in> set ts. map_of (InMemoryTransactionTable ?s2) (T_GetTransactionID t) = None"
    proof
      fix t
      assume t: "t \<in> set ts"
      then have "T_GetTransactionID t \<in> T_GetTransactionID ` set ts" by (rule imageI)
      then have "T_GetTransactionID t \<noteq> T_GetTransactionID u" using notin by metis
      moreover have "map_of (InMemoryTransactionTable s) (T_GetTransactionID t) = None"
        using Cons.prems(2) t by simp
      ultimately show "map_of (InMemoryTransactionTable ?s2) (T_GetTransactionID t) = None"
        by (simp add: postTransaction_transactions)
    qed
    have ok2: "fst (persistTransactions now (n + 3) jid ts ?s2) = None"
      using Cons.prems(3) by (simp only: step)
    from Cons.IH [OF dist fresh2 ok2] obtain rs where
      a: "InMemoryTransactionTable (snd (persistTransactions now (n + 3) jid ts ?s2)) =
            InMemoryTransactionTable ?s2 @ rs"
      and b: "list_all (\<lambda>(k, r). tr_journalId r = jid) rs"
      and c: "map (\<lambda>(k, r). (tr_transactionType r, tr_amount r)) rs =
                map (\<lambda>t. (T_GetTransactionType t, T_GetAmount t)) ts"
      by (elim exE conjE)
    show ?thesis
      by (rule exI [of _ "(T_GetTransactionID u, r) # rs"])
         (simp only: step, simp add: a tbl2 b c r)
  qed
qed

subsection \<open>Stores built by the managers\<close>

lemma ball_prod_iff: "(\<forall>x \<in> A. case x of (k, r) \<Rightarrow> P k r) \<longleftrightarrow> (\<forall>k r. (k, r) \<in> A \<longrightarrow> P k r)"
  by auto

lemma storeInv_iff:
  "storeInv s \<longleftrightarrow>
     distinct (map fst (InMemoryJournalTable s)) \<and>
     (\<forall>k r. (k, r) \<in> set (InMemoryJournalTable s) \<longrightarrow> jr_journalId r = k \<and> \<not> jr_reversal r) \<and>
     (\<forall>k r. (k, r) \<in> set (InMemoryTransactionTable s) \<longrightarrow>
        map_of (InMemoryJournalTable s) (tr_journalId r) \<noteq> None)"
  by (simp only: storeInv_def list_all_iff ball_prod_iff)

lemma storeInv_init: "storeInv init"
  by (simp add: storeInv_def init_def)

lemma journalRecordOf_plain:
  "J_GetReversedJournal j = None \<Longrightarrow>
     jr_journalId (journalRecordOf now j c) = J_GetJournalID j \<and>
     \<not> jr_reversal (journalRecordOf now j c)"
  by (simp add: journalRecordOf_def Let_def)

lemma PersistJournal_success_journals:
  assumes "PersistJournal now (Some j) s = (None, s')"
  shows "InMemoryJournalTable s' =
           InMemoryJournalTable s @ [(J_GetJournalID j, journalRecordOf now j (GetTotalCredit j))]"
proof -
  note v = PersistJournal_success_validate [OF assms]
  have "InMemoryJournalTable s' =
          AList.update (J_GetJournalID j) (journalRecordOf now j (GetTotalCredit j))
            (InMemoryJournalTable s)"
    using PersistJournal_success_store(1) [OF assms]
    by (simp add: persistTransactions_journal)
  then show ?thesis using validateJournal_Inr(4) [OF v] by (simp add: update_fresh)
qed

lemma PersistJournal_success_transactions_set:
  assumes "PersistJournal now (Some j) s = (None, s')"
    and "(k, r) \<in> set (InMemoryTransactionTable s')"
  shows "(k, r) \<in> set (InMemoryTransactionTable s) \<or> tr_journalId r = J_GetJournalID j"
proof -
  have "(k, r) \<in> set (InMemoryTransactionTable
          (snd (persistTransactions now 2 (J_GetJournalID j) (J_GetTransactions j)
            (s\<lparr>InMemoryJournalTable :=
                 AList.update (J_GetJournalID j) (journalRecordOf now j (GetTotalCredit j))
                   (InMemoryJournalTable s)\<rparr>))))"
    using assms(2) PersistJournal_success_store(1) [OF assms(1)] by simp
  from persistTransactions_transactions_set [OF this] show ?thesis by simp
qed

lemma storeInv_PersistJournal_success:
  assumes inv: "storeInv s" and ok: "PersistJournal now (Some j) s = (None, s')"
  shows "storeInv s'"
proof -
  note v = PersistJournal_success_validate [OF ok]
  note fresh = validateJournal_Inr(4) [OF v]
  note tbl = PersistJournal_success_journals [OF ok]
  note plain = journalRecordOf_plain [OF validateJournal_Inr(11) [OF v], of now "GetTotalCredit j"]
  from inv have d: "distinct (map fst (InMemoryJournalTable s))"
    and jr: "\<And>k r. (k, r) \<in> set (InMemoryJournalTable s) \<Longrightarrow> jr_journalId r = k \<and> \<not> jr_reversal r"
    and tr: "\<And>k r. (k, r) \<in> set (InMemoryTransactionTable s) \<Longrightarrow>
               map_of (InMemoryJournalTable s) (tr_journalId r) \<noteq> None"
    by (simp_all only: storeInv_iff) blast+
  have notin: "J_GetJournalID j \<notin> fst ` set (InMemoryJournalTable s)"
    using fresh by (simp add: map_of_eq_None_iff)
  have d': "distinct (map fst (InMemoryJournalTable s'))"
    using d notin by (simp add: tbl)
  have jr': "\<forall>k r. (k, r) \<in> set (InMemoryJournalTable s') \<longrightarrow> jr_journalId r = k \<and> \<not> jr_reversal r"
  proof (intro allI impI)
    fix k r
    assume "(k, r) \<in> set (InMemoryJournalTable s')"
    then have "(k, r) \<in> set (InMemoryJournalTable s) \<or>
               (k, r) = (J_GetJournalID j, journalRecordOf now j (GetTotalCredit j))"
      by (simp add: tbl) metis
    then show "jr_journalId r = k \<and> \<not> jr_reversal r"
    proof
      assume "(k, r) \<in> set (InMemoryJournalTable s)"
      then show ?thesis by (rule jr)
    next
      assume "(k, r) = (J_GetJournalID j, journalRecordOf now j (GetTotalCredit j))"
      then show ?thesis using plain by simp
    qed
  qed
  have tr': "\<forall>k r. (k, r) \<in> set (InMemoryTransactionTable s') \<longrightarrow>
               map_of (InMemoryJournalTable s') (tr_journalId r) \<noteq> None"
  proof (intro allI impI)
    fix k r
    assume "(k, r) \<in> set (InMemoryTransactionTable s')"
    from PersistJournal_success_transactions_set [OF ok this]
    show "map_of (InMemoryJournalTable s') (tr_journalId r) \<noteq> None"
    proof
      assume "(k, r) \<in> set (InMemoryTransactionTable s)"
      from tr [OF this] show ?thesis by (simp add: tbl map_add_Some_iff) 
    next
      assume "tr_journalId r = J_GetJournalID j"
      then show ?thesis using fresh by (simp add: tbl map_add_Some_iff)
    qed
  qed
  show ?thesis using d' jr' tr' by (simp only: storeInv_iff)
qed

lemma PersistAccount_tables:
  "InMemoryJournalTable (snd (PersistAccount now a s)) = InMemoryJournalTable s \<and>
   InMemoryTransactionTable (snd (PersistAccount now a s)) = InMemoryTransactionTable s"
  by (simp add: PersistAccount_def IsAccountIdExist_def Let_def)

lemma UpdateAccount_tables:
  "InMemoryJournalTable (snd (UpdateAccount now a s)) = InMemoryJournalTable s \<and>
   InMemoryTransactionTable (snd (UpdateAccount now a s)) = InMemoryTransactionTable s"
  by (simp add: UpdateAccount_def IsAccountIdExist_def Let_def)

lemma PersistJournal_cases:
  "snd (PersistJournal now jo s) = s \<or>
   (\<exists>j. jo = Some j \<and> PersistJournal now (Some j) s = (None, snd (PersistJournal now jo s)))"
proof (cases jo)
  case None
  then show ?thesis by (simp add: PersistJournal_def)
next
  case (Some j)
  show ?thesis
  proof (cases "fst (PersistJournal now (Some j) s)")
    case None
    then have "PersistJournal now (Some j) s = (None, snd (PersistJournal now (Some j) s))"
      by (simp add: prod_eq_iff)
    then show ?thesis using Some by simp
  next
    case (Some e)
    then have "PersistJournal now (Some j) s = (Some e, snd (PersistJournal now (Some j) s))"
      by (simp add: prod_eq_iff)
    from PersistJournal_error_validate [OF this] show ?thesis using \<open>jo = Some j\<close> by simp
  qed
qed

lemma storeInv_cong:
  "InMemoryJournalTable s' = InMemoryJournalTable s \<Longrightarrow>
   InMemoryTransactionTable s' = InMemoryTransactionTable s \<Longrightarrow> storeInv s' = storeInv s"
  by (simp add: storeInv_def)

lemma storeInv_exec: "storeInv s \<Longrightarrow> storeInv (snd (exec op s))"
proof (cases op)
  case (OpPersistJournal now jo)
  assume inv: "storeInv s"
  from PersistJournal_cases [of now jo s] show ?thesis
  proof
    assume "snd (PersistJournal now jo s) = s"
    then show ?thesis using inv OpPersistJournal by simp
  next
    assume "\<exists>j. jo = Some j \<and>
              PersistJournal now (Some j) s = (None, snd (PersistJournal now jo s))"
    then obtain j where "PersistJournal now (Some j) s = (None, snd (PersistJournal now jo s))"
      by (elim exE conjE)
    from storeInv_PersistJournal_success [OF inv this] show ?thesis
      using OpPersistJournal by simp
  qed
next
  case (OpCommitJournal jo)
  assume "storeInv s"
  then show ?thesis using OpCommitJournal by (simp add: CommitJournal_def)
next
  case (OpCancelJournal jo)
  assume "storeInv s"
  then show ?thesis using OpCancelJournal by (simp add: CancelJournal_def)
next
  case (OpPersistAccount now a)
  assume "storeInv s"
  moreover have "storeInv (snd (PersistAccount now a s)) = storeInv s"
    using PersistAccount_tables [of now a s] by (intro storeInv_cong) simp_all
  ultimately show ?thesis using OpPersistAccount by simp
next
  case (OpUpdateAccount now a)
  assume "storeInv s"
  moreover have "storeInv (snd (UpdateAccount now a s)) = storeInv s"
    using UpdateAccount_tables [of now a s] by (intro storeInv_cong) simp_all
  ultimately show ?thesis using OpUpdateAccount by simp
qed

lemma storeInv_run: "storeInv s \<Longrightarrow> storeInv (run ops s)"
  by (induction ops arbitrary: s) (simp_all add: storeInv_exec)

lemma GetJournalById_storeInv:
  assumes "storeInv s" and "(k, r) \<in> set (InMemoryJournalTable s)"
  shows "GetJournalById s k = Some (Inr (journalOfRecord r None (transactionsOfJournal s k)))"
proof -
  from assms(1) have d: "distinct (map fst (InMemoryJournalTable s))"
    and all: "\<forall>k r. (k, r) \<in> set (InMemoryJournalTable s) \<longrightarrow>
               jr_journalId r = k \<and> \<not> jr_reversal r"
    by (simp_all only: storeInv_iff) simp_all
  from all assms(2) have jr: "jr_journalId r = k \<and> \<not> jr_reversal r"
    by (elim allE impE) assumption+
  have "map_of (InMemoryJournalTable s) k = Some r"
    using d assms(2) by (rule map_of_is_SomeI)
  then show ?thesis using jr by (subst GetJournalById.simps) simp
qed

lemma totalOfType_cong:
  "map (\<lambda>t. (T_GetTransactionType t, T_GetAmount t)) xs =
   map (\<lambda>t. (T_GetTransactionType t, T_GetAmount t)) ys \<Longrightarrow>
     totalOfType ty xs a = totalOfType ty ys a"
proof (induction xs arbitrary: ys a)
  case Nil
  then show ?case by simp
next
  case (Cons x xs)
  then obtain y ys' where ys: "ys = y # ys'" by (cases ys) simp_all
  with Cons.prems have
    h: "T_GetTransactionType x = T_GetTransactionType y" "T_GetAmount x = T_GetAmount y"
    and t: "map (\<lambda>t. (T_GetTransactionType t, T_GetAmount t)) xs =
            map (\<lambda>t. (T_GetTransactionType t, T_GetAmount t)) ys'"
    by simp_all
  show ?case using Cons.IH [OF t] h by (simp add: ys)
qed

lemma journalConservesI:
  assumes "GetTotalDebit jl = amt" and "GetTotalCredit jl = amt"
  shows "journalConserves jl amt"
proof -
  have d: "amt = word_of_int (exactTotalOfType DEBIT (J_GetTransactions jl))"
    using assms(1) by (simp add: GetTotalDebit_def totalOfType_exact)
  have c: "amt = word_of_int (exactTotalOfType CREDIT (J_GetTransactions jl))"
    using assms(2) by (simp add: GetTotalCredit_def totalOfType_exact)
  have d': "inInt64 (exactTotalOfType DEBIT (J_GetTransactions jl)) \<Longrightarrow>
        exactTotalOfType DEBIT (J_GetTransactions jl) = sint amt"
    by (subst d) (simp add: sint_exact)
  have c': "inInt64 (exactTotalOfType CREDIT (J_GetTransactions jl)) \<Longrightarrow>
        exactTotalOfType CREDIT (J_GetTransactions jl) = sint amt"
    by (subst c) (simp add: sint_exact)
  show ?thesis
    unfolding journalConserves_def
    by (intro conjI impI) (rule assms(1), rule assms(2), erule conjE, erule d', erule conjE, erule c')
qed

section \<open>The scenario, evaluated\<close>

lemmas scenario_defs =
  init_def clock_def accountA1_def accountA2_def posting_def journalJ1_def journalJ2_def
  journalJ1NoTransactions_def journalUnbalancedNoId_def journalUnbalanced_def
  journalUntyped_def DEBIT_def CREDIT_def PersistAccount_def IsAccountIdExist_def
  accountRecordOf_def PersistJournal_def validateJournal_def reversalCheck_def
  IsJournalIdReversed_def journalRecordOf_def postTransaction_def newBalanceOf_def Let_def

lemma store0_eval:
  "store0 =
     \<lparr>InMemoryJournalTable = [],
      InMemoryAccountTable =
        [(''A1'',
          \<lparr>ar_currency = ''GOLD'', ar_id = ''A1'', ar_name = ''Cash'',
           ar_description = ''Cash at hand'', ar_baseTransactionType = 0,
           ar_balance = 0, ar_coa = ''1.1'', ar_createTime = 1000,
           ar_createBy = ''aCreator'', ar_updateTime = 1001,
           ar_updateBy = ''aCreator''\<rparr>),
         (''A2'',
          \<lparr>ar_currency = ''GOLD'', ar_id = ''A2'', ar_name = ''Loan'',
           ar_description = ''Bank loan'', ar_baseTransactionType = 1,
           ar_balance = 0, ar_coa = ''2.1'', ar_createTime = 1000,
           ar_createBy = ''aCreator'', ar_updateTime = 1001,
           ar_updateBy = ''aCreator''\<rparr>)],
      InMemoryTransactionTable = []\<rparr>"
  by (simp add: store0_def scenario_defs)

lemma store1_eval:
  "store1 =
     \<lparr>InMemoryJournalTable =
        [(''J1'',
          \<lparr>jr_journalId = ''J1'', jr_journalingTime = 1000,
           jr_description = ''Loan received'', jr_reversal = False,
           jr_reversedJournalId = [], jr_amount = 100, jr_createTime = 1001,
           jr_createBy = ''aCreator''\<rparr>)],
      InMemoryAccountTable =
        [(''A1'',
          \<lparr>ar_currency = ''GOLD'', ar_id = ''A1'', ar_name = ''Cash'',
           ar_description = ''Cash at hand'', ar_baseTransactionType = 0,
           ar_balance = 100, ar_coa = ''1.1'', ar_createTime = 1000,
           ar_createBy = ''aCreator'', ar_updateTime = 1004,
           ar_updateBy = ''aCreator''\<rparr>),
         (''A2'',
          \<lparr>ar_currency = ''GOLD'', ar_id = ''A2'', ar_name = ''Loan'',
           ar_description = ''Bank loan'', ar_baseTransactionType = 1,
           ar_balance = 100, ar_coa = ''2.1'', ar_createTime = 1000,
           ar_createBy = ''aCreator'', ar_updateTime = 1007,
           ar_updateBy = ''aCreator''\<rparr>)],
      InMemoryTransactionTable =
        [(''T1'',
          \<lparr>tr_transactionId = ''T1'', tr_transactionTime = 1002,
           tr_accountNumber = ''A1'', tr_journalId = ''J1'',
           tr_description = ''posting'', tr_transactionType = 0,
           tr_amount = 100, tr_accountBalance = 100, tr_createTime = 1003,
           tr_createBy = ''aCreator''\<rparr>),
         (''T2'',
          \<lparr>tr_transactionId = ''T2'', tr_transactionTime = 1005,
           tr_accountNumber = ''A2'', tr_journalId = ''J1'',
           tr_description = ''posting'', tr_transactionType = 1,
           tr_amount = 100, tr_accountBalance = 100, tr_createTime = 1006,
           tr_createBy = ''aCreator''\<rparr>)]\<rparr>"
  by (simp add: store1_def store0_eval scenario_defs)

lemma persist_J1_again:
  "PersistJournal clock (Some journalJ1) store1 = (Some ErrJournalAlreadyPersisted, store1)"
  by (simp add: store1_eval scenario_defs)


section \<open>The claims\<close>

text \<open>
  Claim C2. For every input journal (nil included) and every starting store, if
  \<open>PersistJournal\<close> returns an error then the store after the call is the store before
  it: the journal table, the transaction table and the account table, with every
  balance, are identical by value. Every error return lies in the checks; once the
  checks have passed, the write phase cannot fail (the nil dereference of the model's
  write loop is unreachable).
\<close>

theorem PersistJournal_error_leaves_store:
  assumes "PersistJournal now journalToPersist s = (Some err, s')"
  shows "s' = s"
proof (cases journalToPersist)
  case None
  then show ?thesis using assms by (simp add: PersistJournal_def)
next
  case (Some j)
  then show ?thesis using PersistJournal_error_validate [of now j s err s'] assms by simp
qed

theorem PersistJournal_error_leaves_store_witness:
  "PersistJournal clock (Some journalJ1) store1 = (Some ErrJournalAlreadyPersisted, store1) \<and>
   snd (PersistJournal clock (Some journalJ1) store1) = store1"
  using PersistJournal_error_leaves_store
    [of clock "Some journalJ1" store1 ErrJournalAlreadyPersisted
        "snd (PersistJournal clock (Some journalJ1) store1)"]
  by (simp add: persist_J1_again)

text \<open>
  Claim C6, as stated ("for every journal value whose journal ID is already present in
  the journal store, PersistJournal always fails with the already-persisted error"),
  fails: the three structural checks come before the lookup of the ID. A journal value
  that carries the ID of the persisted journal J1 and no transaction is turned down with
  the no-transaction error.
\<close>

theorem C6_counterexample:
  "map_of (InMemoryJournalTable store1) (J_GetJournalID journalJ1NoTransactions) \<noteq> None \<and>
   PersistJournal clock (Some journalJ1NoTransactions) store1 =
     (Some ErrJournalNoTransaction, store1)"
  by (simp add: store1_eval scenario_defs)

text \<open>
  Claim C6, amended. For every journal value whose journal ID is already present in the
  journal store, \<open>PersistJournal\<close> fails and leaves the store as it was; the error is
  the already-persisted error whenever the journal has a non-empty ID, at least one
  transaction and a non-empty creator, and otherwise the error of the first of these
  three structural checks that it fails.
\<close>

theorem PersistJournal_already_persisted:
  assumes "map_of (InMemoryJournalTable s) (J_GetJournalID j) \<noteq> None"
  shows "PersistJournal now (Some j) s =
           (Some (if J_GetJournalID j = [] then ErrJournalMissingId
                  else if J_GetTransactions j = [] then ErrJournalNoTransaction
                  else if J_GetCreateBy j = [] then ErrJournalMissingAuthor
                  else ErrJournalAlreadyPersisted), s)"
  using validateJournal_present [OF assms]
  by (simp add: PersistJournal_Some_validate)

theorem PersistJournal_already_persisted_witness:
  "map_of (InMemoryJournalTable store1) (J_GetJournalID journalJ1) \<noteq> None \<and>
   PersistJournal clock (Some journalJ1) store1 = (Some ErrJournalAlreadyPersisted, store1)"
proof -
  have h: "map_of (InMemoryJournalTable store1) (J_GetJournalID journalJ1) \<noteq> None"
    by (simp add: store1_eval journalJ1_def)
  from PersistJournal_already_persisted [OF h, of clock] h show ?thesis
    by (simp add: journalJ1_def)
qed




text \<open>
  Claim C1 (reversal journals: rejected with the double-reversal error exactly when the
  target is already reversed, persisted with the linkage otherwise) against the code, at
  the scenario of the specification. J1 is persisted and no journal reverses it
  (\<open>IsJournalIdReversed\<close> on J1 answers false); J2 is marked as the reversal of J1.
  Check 9 hands \<open>IsJournalIdReversed\<close> the ID of J2 itself, which check 2 has just
  found absent from the table, so the call fails with the ID-not-found error and J2 is
  not persisted.
\<close>

theorem PersistJournal_reversal_of_J1:
  "map_of (InMemoryJournalTable store1) ''J1'' \<noteq> None \<and>
   J_GetReversedJournal journalJ2 = Some journalJ1 \<and>
   IsJournalIdReversed store1 ''J1'' = (False, None) \<and>
   PersistJournal clock (Some journalJ2) store1 = (Some ErrJournalIdNotFound, store1)"
  by (simp add: store1_eval scenario_defs)

end
